theory Spec2Isabelle
  imports Main "HOL-Library.Word" "HOL-Library.Sublist"
begin

section \<open>Strings of the JavaScript runtime\<close>

text \<open>
  A JavaScript string is a sequence of UTF-16 code units. Every literal of
  \<^verbatim>\<open>src/index.tsx\<close> that matters here lies in the Basic Latin and Latin-1
  Supplement blocks (the umlauts are the precomposed code points U+00E4, U+00F6, U+00FC),
  where a code point is one code unit of the same value; \<open>str\<close> writes such a literal.
\<close>

type_synonym code_unit = "16 word"
type_synonym jsstring = "code_unit list"

definition str :: "string \<Rightarrow> jsstring" where
  "str s = map of_char s"

text \<open>
  \<^verbatim>\<open>String.prototype.toLowerCase\<close> and the upper-case conversion that regular
  expressions with the \<^verbatim>\<open>i\<close> flag use are tables of the runtime, not code of the
  repository. They are parameters of the model, and so is the message of the TypeError that
  the runtime throws when a property (named by the argument) is read from
  \<^verbatim>\<open>undefined\<close>.
\<close>

record js_runtime =
  toLowerCase :: "jsstring \<Rightarrow> jsstring"
  toUpperCase :: "jsstring \<Rightarrow> jsstring"
  typeErrorMessage :: "jsstring \<Rightarrow> jsstring"

text \<open>
  \<^verbatim>\<open>String.prototype.trim\<close>: strips the ECMAScript WhiteSpace and LineTerminator
  code points from both ends.
\<close>

definition is_white_space :: "code_unit \<Rightarrow> bool" where
  "is_white_space c =
     (c \<in> set [0x9, 0xA, 0xB, 0xC, 0xD, 0x20, 0xA0, 0x1680, 0x2028, 0x2029,
               0x202F, 0x205F, 0x3000, 0xFEFF]
      \<or> (0x2000 \<le> c \<and> c \<le> 0x200A))"

definition trim :: "jsstring \<Rightarrow> jsstring" where
  "trim s = rev (dropWhile is_white_space (rev (dropWhile is_white_space s)))"

text \<open>
  \<^verbatim>\<open>Array.prototype.slice(start)\<close>: a negative start counts from the end and is
  clamped at the first element, a positive one is clamped at the length.
\<close>

definition slice :: "int \<Rightarrow> 'a list \<Rightarrow> 'a list" where
  "slice start xs =
     (let len = int (length xs);
          k = (if start < 0 then max (len + start) 0 else min start len)
      in drop (nat k) xs)"

section \<open>Regular expressions built from a keyword\<close>

text \<open>
  \<^verbatim>\<open>new RegExp(keyword, 'gi')\<close>: no keyword of the program contains a syntax
  character of the pattern language, so each pattern is the keyword's code units, one
  after the other. With the \<^verbatim>\<open>i\<close> flag (and without \<^verbatim>\<open>u\<close>) two code
  units match when their canonical forms are equal (ECMAScript, Canonicalize).
\<close>

definition syntax_characters :: "code_unit set" where
  "syntax_characters = set (0x5C # str ''^$.*+?()[]{}|'')"

definition canonicalize :: "js_runtime \<Rightarrow> code_unit \<Rightarrow> code_unit" where
  "canonicalize rt ch =
     (case toUpperCase rt [ch] of
        [cu] \<Rightarrow> if 128 \<le> unat ch \<and> unat cu < 128 then ch else cu
      | _ \<Rightarrow> ch)"

fun matches_here :: "(code_unit \<Rightarrow> code_unit) \<Rightarrow> jsstring \<Rightarrow> jsstring \<Rightarrow> bool" where
  "matches_here canon [] t = True"
| "matches_here canon (p # ps) [] = False"
| "matches_here canon (p # ps) (c # cs) = (canon p = canon c \<and> matches_here canon ps cs)"

text \<open>
  \<^verbatim>\<open>text.match(re)\<close> with the \<^verbatim>\<open>g\<close> flag collects the matches from left to
  right; the search resumes at the end of the last match (one code unit further after an
  empty match). \<open>global_match_count\<close> is the length of that array, 0 when
  \<^verbatim>\<open>match\<close> returns null.
\<close>

function global_match_count :: "(code_unit \<Rightarrow> code_unit) \<Rightarrow> jsstring \<Rightarrow> jsstring \<Rightarrow> nat" where
  "global_match_count canon p [] = (if p = [] then 1 else 0)"
| "global_match_count canon p (c # cs) =
     (if matches_here canon p (c # cs)
      then 1 + global_match_count canon p (drop (max 1 (length p)) (c # cs))
      else global_match_count canon p cs)"
  by pat_completeness auto
termination
  by (relation "measure (\<lambda>(canon, p, t). length t)") auto

definition match_gi_length :: "js_runtime \<Rightarrow> jsstring \<Rightarrow> jsstring \<Rightarrow> nat" where
  "match_gi_length rt keyword text = global_match_count (canonicalize rt) keyword text"

section \<open>Application state\<close>

text \<open>
  An element of \<open>conversationHistory\<close>. The declared type of \<open>content\<close> is string, but
  the program stores \<^verbatim>\<open>response.text\<close> there unchecked, which is
  \<^verbatim>\<open>undefined\<close> (\<open>None\<close>) for a response without text.
\<close>

record turn =
  role :: jsstring
  content :: "jsstring option"

datatype message_type = Human | AI | System

datatype node = MessageDiv message_type jsstring | ThinkingDiv

text \<open>
  \<open>appState\<close> of the source, together with the two parts of the page that the
  functions below read and write: the value of \<^verbatim>\<open>#chat-input\<close> and the children of
  \<^verbatim>\<open>#chat-messages\<close> (\<open>None\<close> when the page has no such element). The timer
  writes \<open>sessionTime\<close> and the \<^verbatim>\<open>#timer\<close> element only and is left out.
  \<open>chatInput\<close> is the value as the element gives it back, with the line breaks as the
  page normalises them. A child is recorded with the text assigned to its
  \<^verbatim>\<open>innerHTML\<close>; elements that markup inside such a text would create are not
  followed.
\<close>

record app_state =
  startTime :: "int option"
  sessionTime :: int
  emergenceScore :: int
  isLoading :: bool
  conversationHistory :: "turn list"
  chatInput :: jsstring
  chatMessages :: "node list option"

definition replace_newlines :: "jsstring \<Rightarrow> jsstring" where
  "replace_newlines s = concat (map (\<lambda>c. if c = 0xA then str ''<br>'' else [c]) s)"

definition addMessage :: "jsstring \<Rightarrow> message_type \<Rightarrow> app_state \<Rightarrow> app_state" where
  "addMessage text ty s =
     (case chatMessages s of
        None \<Rightarrow> s
      | Some children \<Rightarrow>
          s\<lparr>chatMessages := Some (children @ [MessageDiv ty (replace_newlines text)])\<rparr>)"

definition showThinkingMessage :: "app_state \<Rightarrow> app_state" where
  "showThinkingMessage s =
     (case chatMessages s of
        None \<Rightarrow> s
      | Some children \<Rightarrow> s\<lparr>chatMessages := Some (children @ [ThinkingDiv])\<rparr>)"

definition hideThinkingMessage :: "app_state \<Rightarrow> app_state" where
  "hideThinkingMessage s =
     (case chatMessages s of
        None \<Rightarrow> s
      | Some children \<Rightarrow> s\<lparr>chatMessages := Some (remove1 ThinkingDiv children)\<rparr>)"

text \<open>
  \<open>setLoading\<close> also toggles the \<^verbatim>\<open>disabled\<close> attribute and two style classes of
  the send button and the input; no function reads them back.
\<close>

definition setLoading :: "bool \<Rightarrow> app_state \<Rightarrow> app_state" where
  "setLoading b s = s\<lparr>isLoading := b\<rparr>"

section \<open>Emergence score\<close>

definition emergenceKeywords :: "jsstring list" where
  "emergenceKeywords =
     [str (CHR 0xFC # ''berraschend''), str ''unerwartet'', str ''emergent'',
      str (''pl'' @ CHR 0xF6 # ''tzlich''), str ''spontan'',
      str ''kreativ'', str ''innovation'', str ''neu'', str ''anders'', str ''durchbruch'',
      str ''inspiration'',
      str ''verbindung'', str ''zusammenhang'', str (''verkn'' @ CHR 0xFC # ''pfung''),
      str ''kombination'', str ''selbstreflexion'',
      str ''meta-ebene'', str ''paradox'', str ''philosophie'']"

definition surpriseWords :: "jsstring list" where
  "surpriseWords =
     [str (CHR 0xFC # ''berrasch''), str ''wow'', str (''verbl'' @ CHR 0xFC # ''ff''),
      str ''erstaunlich'', str ''!'']"

text \<open>
  \<open>analyzeMessage\<close>: the \<^verbatim>\<open>forEach\<close> loop adds to \<open>emergencePoints\<close>, the
  \<^verbatim>\<open>reduce\<close> folds from the left starting at 0. \<^verbatim>\<open>updateAnalytics\<close> only
  switches a style class of the indicator element and leaves \<open>appState\<close> alone.
\<close>

definition analyzeMessage :: "js_runtime \<Rightarrow> jsstring \<Rightarrow> app_state \<Rightarrow> app_state" where
  "analyzeMessage rt message s =
     (let lowerMessage = toLowerCase rt message;
          emergencePoints =
            fold (\<lambda>keyword points.
                    (let matches = int (match_gi_length rt keyword lowerMessage)
                     in points + matches * 15))
                 emergenceKeywords 0;
          surprises =
            foldl (\<lambda>count word. count + int (match_gi_length rt word lowerMessage))
                  0 surpriseWords
      in s\<lparr>emergenceScore := min (emergencePoints + surprises * 10) 100\<rparr>)"

section \<open>Conversation with the model\<close>

text \<open>
  The request of \<^verbatim>\<open>ai.models.generateContent\<close> carries the whole history, with
  the role names of the service. The call is outside the program: it either throws an
  error, of which the program reads \<^verbatim>\<open>message\<close> (\<open>error_message\<close>), or returns a
  response, of which the program reads \<^verbatim>\<open>response.text\<close>: a string, or
  \<^verbatim>\<open>undefined\<close> (\<open>None\<close>) when the response has no text, as for a blocked
  prompt.
\<close>

datatype part = TextPart "jsstring option"

record api_content =
  api_role :: jsstring
  parts :: "part list"

datatype js_error = Error (error_message: jsstring)

type_synonym generate_content = "api_content list \<Rightarrow> js_error + jsstring option"

definition contents_of :: "turn list \<Rightarrow> api_content list" where
  "contents_of history =
     map (\<lambda>msg. \<lparr>api_role = (if role msg = str ''assistant'' then str ''model'' else str ''user''),
                parts = [TextPart (content msg)]\<rparr>) history"

definition initiateConversation :: "app_state \<Rightarrow> app_state" where
  "initiateConversation s =
     (let firstAIMessage = str (''Wei'' @ CHR 0xDF # ''t du eigentlich, was Emergenz bedeutet?'');
          s1 = addMessage firstAIMessage AI s
      in s1\<lparr>conversationHistory :=
               conversationHistory s1 @ [\<lparr>role = str ''assistant'', content = Some firstAIMessage\<rparr>]\<rparr>)"

text \<open>
  \<open>addMessage\<close> and \<open>analyzeMessage\<close> called with \<^verbatim>\<open>response.text\<close>. On
  \<^verbatim>\<open>undefined\<close>, \<open>addMessage\<close> returns at its guard when the page has no
  \<^verbatim>\<open>#chat-messages\<close> and otherwise throws at \<^verbatim>\<open>content.replace\<close>, before
  it appends anything; \<open>analyzeMessage\<close> throws at \<^verbatim>\<open>message.toLowerCase\<close>.
\<close>

definition undefined_read :: "js_runtime \<Rightarrow> jsstring \<Rightarrow> js_error" where
  "undefined_read rt property = Error (typeErrorMessage rt property)"

definition addMessage_value ::
  "js_runtime \<Rightarrow> jsstring option \<Rightarrow> message_type \<Rightarrow> app_state \<Rightarrow> js_error + app_state" where
  "addMessage_value rt text ty s =
     (case text of
        Some t \<Rightarrow> Inr (addMessage t ty s)
      | None \<Rightarrow>
          (case chatMessages s of
             None \<Rightarrow> Inr s
           | Some children \<Rightarrow> Inl (undefined_read rt (str ''replace''))))"

definition analyzeMessage_value ::
  "js_runtime \<Rightarrow> jsstring option \<Rightarrow> app_state \<Rightarrow> js_error + app_state" where
  "analyzeMessage_value rt message s =
     (case message of
        Some m \<Rightarrow> Inr (analyzeMessage rt m s)
      | None \<Rightarrow> Inl (undefined_read rt (str ''toLowerCase'')))"

text \<open>
  \<open>getAIResponse\<close> returns the error it rethrows (\<open>None\<close> when it returns normally)
  and the state it leaves behind. The \<^verbatim>\<open>catch\<close> block (\<open>caught\<close>) takes whatever
  the \<^verbatim>\<open>try\<close> block throws: the error of the request, before anything is pushed,
  or the TypeError of a response without text, after the push and the trim.
\<close>

definition caught :: "js_error \<Rightarrow> app_state \<Rightarrow> js_error option \<times> app_state" where
  "caught error s =
     (Some error,
      addMessage (0x274C # str '' Fehler bei der Gemini API: '' @ error_message error) System s)"

definition getAIResponse ::
  "js_runtime \<Rightarrow> generate_content \<Rightarrow> app_state \<Rightarrow> js_error option \<times> app_state" where
  "getAIResponse rt generateContent s =
     (let contents = contents_of (conversationHistory s)
      in case generateContent contents of
           Inr aiMessage \<Rightarrow>
             (let s1 = s\<lparr>conversationHistory :=
                          conversationHistory s @ [\<lparr>role = str ''assistant'', content = aiMessage\<rparr>]\<rparr>;
                  s2 = (if length (conversationHistory s1) > 20
                        then s1\<lparr>conversationHistory := slice (- 18) (conversationHistory s1)\<rparr>
                        else s1)
              in case addMessage_value rt aiMessage AI s2 of
                   Inl error \<Rightarrow> caught error s2
                 | Inr s3 \<Rightarrow>
                     (case analyzeMessage_value rt aiMessage s3 of
                        Inl error \<Rightarrow> caught error s3
                      | Inr s4 \<Rightarrow> (None, s4)))
         | Inl error \<Rightarrow> caught error s)"

text \<open>
  \<open>sendMessage\<close>, from the call to the settlement of the promise it returns. While the
  request is pending \<open>isLoading\<close> is set, so a second call returns at the guard. The
  user's turn is pushed without a trim; the only trim is the one of \<open>getAIResponse\<close>.
\<close>

definition sendMessage :: "js_runtime \<Rightarrow> generate_content \<Rightarrow> app_state \<Rightarrow> app_state" where
  "sendMessage rt generateContent s =
     (let message = trim (chatInput s)
      in if message = [] \<or> isLoading s then s
         else
           (let s1 = addMessage message Human s;
                s2 = s1\<lparr>chatInput := []\<rparr>;
                s3 = s2\<lparr>conversationHistory :=
                         conversationHistory s2 @ [\<lparr>role = str ''user'', content = Some message\<rparr>]\<rparr>;
                s4 = showThinkingMessage (setLoading True s3);
                (thrown, s5) = getAIResponse rt generateContent s4;
                s6 = (case thrown of
                        None \<Rightarrow> s5
                      | Some error \<Rightarrow>
                          addMessage
                            (0x274C # str '' Fehler: '' @ error_message error @ [0xA, 0xA]
                               @ str (''Bitte versuche es sp'' @ CHR 0xE4 # ''ter nochmal.''))
                            System s5)
            in hideThinkingMessage (setLoading False s6)))"

definition sendSuggestion ::
  "js_runtime \<Rightarrow> generate_content \<Rightarrow> jsstring \<Rightarrow> app_state \<Rightarrow> app_state" where
  "sendSuggestion rt generateContent text s = sendMessage rt generateContent (s\<lparr>chatInput := text\<rparr>)"

text \<open>
  The state when the page has loaded: the initial \<open>appState\<close>, an empty input and an
  empty \<^verbatim>\<open>#chat-messages\<close>, then \<open>init\<close> at time \<open>now\<close>.
\<close>

definition loaded :: "int \<Rightarrow> app_state" where
  "loaded now =
     initiateConversation
       (\<lparr>startTime = None, sessionTime = 0, emergenceScore = 0, isLoading = False,
         conversationHistory = [], chatInput = [], chatMessages = Some []\<rparr>
        \<lparr>startTime := Some now\<rparr>)"

text \<open>A session: the user submits texts one after the other, each with the outcome of its request.\<close>

fun session :: "js_runtime \<Rightarrow> (jsstring \<times> generate_content) list \<Rightarrow> app_state \<Rightarrow> app_state" where
  "session rt [] s = s"
| "session rt ((text, generateContent) # rest) s =
     session rt rest (sendSuggestion rt generateContent text s)"

section \<open>The score as the specification words it\<close>

text \<open>
  The occurrences of a keyword as a substring of a text, counted from left to right
  without overlap, by plain equality of code units.
\<close>

function occurrences :: "jsstring \<Rightarrow> jsstring \<Rightarrow> nat" where
  "occurrences p [] = (if p = [] then 1 else 0)"
| "occurrences p (c # cs) =
     (if prefix p (c # cs)
      then 1 + occurrences p (drop (max 1 (length p)) (c # cs))
      else occurrences p cs)"
  by pat_completeness auto
termination
  by (relation "measure (\<lambda>(p, t). length t)") auto

definition spec_score :: "jsstring \<Rightarrow> int" where
  "spec_score lowered =
     (let emergencePoints = 15 * (\<Sum>k\<leftarrow>emergenceKeywords. int (occurrences k lowered));
          surprises = (\<Sum>w\<leftarrow>surpriseWords. int (occurrences w lowered))
      in min (emergencePoints + surprises * 10) 100)"


text \<open>
  The comparison under the \<^verbatim>\<open>i\<close> flag adds nothing on a lowered text when no code
  unit of the text has the canonical form of a different code unit of a keyword. The
  runtime's tables give the letters of the keywords the canonical forms A to Z, U+00D6 and
  U+00DC, shared only with those capitals, which \<^verbatim>\<open>toLowerCase\<close> removes.
\<close>

definition keyword_units :: "code_unit set" where
  "keyword_units = set (concat (emergenceKeywords @ surpriseWords))"

definition exact_under_i :: "js_runtime \<Rightarrow> jsstring \<Rightarrow> bool" where
  "exact_under_i rt lowered =
     (\<forall>c \<in> set lowered. \<forall>k \<in> keyword_units.
        canonicalize rt c = canonicalize rt k \<longrightarrow> c = k)"

section \<open>A runtime for Latin-1 texts\<close>

text \<open>
  The case tables of Unicode for U+0000 to U+00FF: the capitals A to Z and U+00C0 to U+00DE
  (without the multiplication sign U+00D7) have their small letter 32 places up; upwards,
  the sharp s becomes SS, the small y with diaeresis U+0178 and the micro sign U+039C. Code
  units above U+00FF are left as they are, which is the runtime's behaviour only for
  uncased ones: this runtime stands for the real one on texts of these two blocks. The
  message of the TypeError is worded as V8 words it.
\<close>

definition latin1_lower_unit :: "code_unit \<Rightarrow> code_unit" where
  "latin1_lower_unit c =
     (if (0x41 \<le> c \<and> c \<le> 0x5A) \<or> (0xC0 \<le> c \<and> c \<le> 0xDE \<and> c \<noteq> 0xD7) then c + 0x20 else c)"

definition latin1_upper_unit :: "code_unit \<Rightarrow> jsstring" where
  "latin1_upper_unit c =
     (if c = 0xDF then [0x53, 0x53]
      else if c = 0xFF then [0x178]
      else if c = 0xB5 then [0x39C]
      else if (0x61 \<le> c \<and> c \<le> 0x7A) \<or> (0xE0 \<le> c \<and> c \<le> 0xFE \<and> c \<noteq> 0xF7) then [c - 0x20]
      else [c])"

definition latin1 :: js_runtime where
  "latin1 = \<lparr>toLowerCase = map latin1_lower_unit,
             toUpperCase = (\<lambda>s. concat (map latin1_upper_unit s)),
             typeErrorMessage =
               (\<lambda>property. str ''Cannot read properties of undefined (reading ''
                   @ [0x27] @ property @ [0x27] @ str '')'')\<rparr>"

text \<open>
  The code units of which the keywords and markers are made: the small letters a to z,
  U+00F6, U+00FC, the hyphen and the exclamation mark.
\<close>

definition keyword_unit :: "code_unit \<Rightarrow> bool" where
  "keyword_unit k = ((0x61 \<le> k \<and> k \<le> 0x7A) \<or> k = 0xF6 \<or> k = 0xFC \<or> k = 0x2D \<or> k = 0x21)"

section \<open>Names for the statements\<close>

text \<open>
  The two objects that the program pushes onto \<open>conversationHistory\<close>, the entries of the
  displayed transcript that are system messages, and the two match counts of
  \<open>analyzeMessage\<close> as natural numbers.
\<close>

definition user_turn :: "app_state \<Rightarrow> turn" where
  "user_turn s = \<lparr>role = str ''user'', content = Some (trim (chatInput s))\<rparr>"

definition assistant_turn :: "jsstring option \<Rightarrow> turn" where
  "assistant_turn aiMessage = \<lparr>role = str ''assistant'', content = aiMessage\<rparr>"

fun is_system :: "node \<Rightarrow> bool" where
  "is_system (MessageDiv System text) = True"
| "is_system n = False"

definition system_entries :: "app_state \<Rightarrow> nat" where
  "system_entries s = (case chatMessages s of None \<Rightarrow> 0 | Some children \<Rightarrow> length (filter is_system children))"

definition keyword_matches :: "js_runtime \<Rightarrow> jsstring \<Rightarrow> nat" where
  "keyword_matches rt message =
     (\<Sum>k\<leftarrow>emergenceKeywords. match_gi_length rt k (toLowerCase rt message))"

definition surprise_matches :: "js_runtime \<Rightarrow> jsstring \<Rightarrow> nat" where
  "surprise_matches rt message =
     (\<Sum>w\<leftarrow>surpriseWords. match_gi_length rt w (toLowerCase rt message))"

section \<open>Sample inputs\<close>

definition quota_exceeded :: generate_content where
  "quota_exceeded contents = Inl (Error (str ''quota''))"

definition replies_wow :: generate_content where
  "replies_wow contents = Inr (Some (str ''Wow neu!''))"

definition no_text :: generate_content where
  "no_text contents = Inr None"

definition refuses_long :: generate_content where
  "refuses_long contents =
     (if length contents > 20 then Inl (Error (str ''too long'')) else Inr (Some (str ''ok'')))"

definition typed_hallo :: app_state where
  "typed_hallo = (loaded 0)\<lparr>chatInput := str '' Hallo ''\<rparr>"

definition scored :: app_state where
  "scored = (loaded 0)\<lparr>emergenceScore := 35\<rparr>"

definition numbered_history :: "nat \<Rightarrow> turn list" where
  "numbered_history n =
     map (\<lambda>i. \<lparr>role = (if even i then str ''assistant'' else str ''user''), content = Some [of_nat i]\<rparr>) [0..<n]"

definition full_history :: app_state where
  "full_history = (loaded 0)\<lparr>conversationHistory := numbered_history 20\<rparr>"

definition seven_neu :: jsstring where
  "seven_neu = concat (replicate 7 (str ''neu''))"

definition ueberraschend :: jsstring where
  "ueberraschend = str (CHR 0xFC # ''berraschend'')"


text \<open>
  How the length of the history moves in one submission when the service is
  \<open>refuses_long\<close>: the request fails on more than 20 turns, otherwise the reply is appended
  and the history trimmed.
\<close>

definition next_length :: "nat \<Rightarrow> nat" where
  "next_length n = (if n + 1 > 20 then n + 1 else if n + 2 > 20 then 18 else n + 2)"

section \<open>Properties of the score\<close>

lemma matches_here_prefix:
  "(\<And>c k. c \<in> set t \<Longrightarrow> k \<in> set p \<Longrightarrow> canon c = canon k \<Longrightarrow> c = k)
   \<Longrightarrow> matches_here canon p t = prefix p t"
proof (induction canon p t rule: matches_here.induct)
  case (3 canon p ps c cs)
  have tl_eq: "matches_here canon ps cs = prefix ps cs"
    by (rule "3.IH") (auto intro: "3.prems")
  have hd_eq: "(canon p = canon c) = (p = c)"
    using "3.prems" [of c p] by auto
  show ?case
    by (simp add: tl_eq hd_eq)
qed simp_all

lemma global_match_count_occurrences:
  "(\<And>c k. c \<in> set t \<Longrightarrow> k \<in> set p \<Longrightarrow> canon c = canon k \<Longrightarrow> c = k)
   \<Longrightarrow> global_match_count canon p t = occurrences p t"
proof (induction canon p t rule: global_match_count.induct)
  case (1 canon p)
  show ?case by simp
next
  case (2 canon p c cs)
  have here: "matches_here canon p (c # cs) = prefix p (c # cs)"
    by (rule matches_here_prefix) (rule "2.prems")
  show ?case
  proof (cases "prefix p (c # cs)")
    case True
    have "global_match_count canon p (drop (max 1 (length p)) (c # cs))
          = occurrences p (drop (max 1 (length p)) (c # cs))"
      using True here by (intro "2.IH"(1)) (auto dest: in_set_dropD intro: "2.prems")
    with True here show ?thesis by simp
  next
    case False
    have "global_match_count canon p cs = occurrences p cs"
      using False here by (intro "2.IH"(2)) (auto intro: "2.prems")
    with False here show ?thesis by simp
  qed
qed

lemma fold_points:
  "fold (\<lambda>keyword points. points + int (f keyword) * 15) ks a
   = a + 15 * (\<Sum>k\<leftarrow>ks. int (f k))"
  by (induction ks arbitrary: a) (simp_all add: algebra_simps)

lemma foldl_count:
  "foldl (\<lambda>count word. count + int (f word)) a ws = a + (\<Sum>w\<leftarrow>ws. int (f w))"
  by (induction ws arbitrary: a) simp_all

lemma emergenceScore_analyzeMessage:
  "emergenceScore (analyzeMessage rt message s) =
     min (15 * (\<Sum>k\<leftarrow>emergenceKeywords. int (match_gi_length rt k (toLowerCase rt message)))
          + (\<Sum>w\<leftarrow>surpriseWords. int (match_gi_length rt w (toLowerCase rt message))) * 10) 100"
  by (simp add: analyzeMessage_def Let_def fold_points foldl_count)

lemma match_gi_length_occurrences:
  assumes "exact_under_i rt t" and "k \<in> set (emergenceKeywords @ surpriseWords)"
  shows "match_gi_length rt k t = occurrences k t"
  unfolding match_gi_length_def
proof (rule global_match_count_occurrences)
  fix c u
  assume "c \<in> set t" "u \<in> set k" "canonicalize rt c = canonicalize rt u"
  moreover have "u \<in> keyword_units"
    using \<open>u \<in> set k\<close> assms(2) unfolding keyword_units_def by (metis UN_I set_concat)
  ultimately show "c = u"
    using assms(1) unfolding exact_under_i_def by blast
qed

lemma emergenceScore_spec_score:
  assumes "exact_under_i rt (toLowerCase rt message)"
  shows "emergenceScore (analyzeMessage rt message s) = spec_score (toLowerCase rt message)"
proof -
  let ?t = "toLowerCase rt message"
  have e: "(\<Sum>k\<leftarrow>emergenceKeywords. int (match_gi_length rt k ?t))
           = (\<Sum>k\<leftarrow>emergenceKeywords. int (occurrences k ?t))"
    by (rule arg_cong [where f = sum_list], rule map_cong)
       (simp_all add: match_gi_length_occurrences [OF assms])
  have w: "(\<Sum>k\<leftarrow>surpriseWords. int (match_gi_length rt k ?t))
           = (\<Sum>k\<leftarrow>surpriseWords. int (occurrences k ?t))"
    by (rule arg_cong [where f = sum_list], rule map_cong)
       (simp_all add: match_gi_length_occurrences [OF assms])
  show ?thesis
    by (simp add: emergenceScore_analyzeMessage spec_score_def e w)
qed

lemma spec_score_range: "0 \<le> spec_score t \<and> spec_score t \<le> 100"
proof -
  have "0 \<le> (\<Sum>k\<leftarrow>emergenceKeywords. int (occurrences k t))"
       "0 \<le> (\<Sum>k\<leftarrow>surpriseWords. int (occurrences k t))"
    by (auto intro!: sum_list_nonneg)
  then show ?thesis
    by (simp add: spec_score_def)
qed

lemma int_sum_list_map: "int (\<Sum>x\<leftarrow>xs. f x) = (\<Sum>x\<leftarrow>xs. int (f x))"
  by (induction xs) simp_all

lemma emergenceScore_matches:
  "emergenceScore (analyzeMessage rt message s) =
     min (15 * int (keyword_matches rt message) + 10 * int (surprise_matches rt message)) 100"
  by (simp add: emergenceScore_analyzeMessage keyword_matches_def surprise_matches_def int_sum_list_map)

lemma matches_exact:
  assumes "exact_under_i rt (toLowerCase rt message)"
  shows "keyword_matches rt message = (\<Sum>k\<leftarrow>emergenceKeywords. occurrences k (toLowerCase rt message))"
    and "surprise_matches rt message = (\<Sum>w\<leftarrow>surpriseWords. occurrences w (toLowerCase rt message))"
  unfolding keyword_matches_def surprise_matches_def
  by (rule arg_cong [where f = sum_list], rule map_cong,
      simp_all add: match_gi_length_occurrences [OF assms])+

subsection \<open>The Latin-1 runtime compares lowered texts exactly\<close>

lemma keyword_units_shape: "k \<in> keyword_units \<Longrightarrow> keyword_unit k"
  by (auto simp: keyword_units_def emergenceKeywords_def surpriseWords_def str_def keyword_unit_def)

lemma keywords_are_literal_patterns:
  assumes "k \<in> set (emergenceKeywords @ surpriseWords)"
  shows "set k \<inter> syntax_characters = {}"
proof -
  have "c \<notin> syntax_characters" if "c \<in> set k" for c
  proof -
    have "c \<in> keyword_units"
      using that assms unfolding keyword_units_def by (metis UN_I set_concat)
    then have "keyword_unit c"
      by (rule keyword_units_shape)
    then show ?thesis
      by (auto simp: keyword_unit_def syntax_characters_def str_def)
  qed
  then show ?thesis by blast
qed

lemma canonicalize_latin1_ascii:
  assumes "0x61 \<le> c" "c \<le> 0x7A"
  shows "canonicalize latin1 c = c - 0x20"
proof -
  have "unat c < 128" using assms by unat_arith
  moreover have "c \<noteq> 0xDF" "c \<noteq> 0xFF" "c \<noteq> 0xB5" using assms by auto
  ultimately show ?thesis
    using assms by (simp add: canonicalize_def latin1_def latin1_upper_unit_def)
qed

lemma canonicalize_latin1_supplement:
  assumes "0xE0 \<le> c" "c \<le> 0xFE" "c \<noteq> 0xF7"
  shows "canonicalize latin1 c = c - 0x20"
proof -
  have "128 \<le> unat (c - 0x20)" using assms by unat_arith
  moreover have "c \<noteq> 0xDF" "c \<noteq> 0xFF" "c \<noteq> 0xB5" using assms by auto
  ultimately show ?thesis
    using assms by (simp add: canonicalize_def latin1_def latin1_upper_unit_def)
qed

lemma canonicalize_latin1_other:
  assumes "\<not> (0x61 \<le> c \<and> c \<le> 0x7A)" "\<not> (0xE0 \<le> c \<and> c \<le> 0xFE \<and> c \<noteq> 0xF7)"
  shows "canonicalize latin1 c = (if c = 0xFF then 0x178 else if c = 0xB5 then 0x39C else c)"
  using assms by (auto simp: canonicalize_def latin1_def latin1_upper_unit_def)

lemma latin1_lower_unit_not_capital:
  "\<not> (0x41 \<le> latin1_lower_unit c \<and> latin1_lower_unit c \<le> 0x5A)"
  "\<not> (0xC0 \<le> latin1_lower_unit c \<and> latin1_lower_unit c \<le> 0xDE \<and> latin1_lower_unit c \<noteq> 0xD7)"
  unfolding latin1_lower_unit_def by (simp_all split: if_splits; unat_arith)+

lemma latin1_exact_unit:
  assumes k: "keyword_unit k"
    and eq: "canonicalize latin1 (latin1_lower_unit c) = canonicalize latin1 k"
  shows "latin1_lower_unit c = k"
proof -
  define d where "d = latin1_lower_unit c"
  have nc: "\<not> (0x41 \<le> d \<and> d \<le> 0x5A)" "\<not> (0xC0 \<le> d \<and> d \<le> 0xDE \<and> d \<noteq> 0xD7)"
    unfolding d_def by (rule latin1_lower_unit_not_capital)+
  have ck: "canonicalize latin1 k = (if k = 0x2D \<or> k = 0x21 then k else k - 0x20)"
    using k unfolding keyword_unit_def
    by (auto simp: canonicalize_latin1_ascii canonicalize_latin1_supplement canonicalize_latin1_other)
  consider (a) "0x61 \<le> d \<and> d \<le> 0x7A" | (b) "0xE0 \<le> d \<and> d \<le> 0xFE \<and> d \<noteq> 0xF7"
    | (c) "\<not> (0x61 \<le> d \<and> d \<le> 0x7A)" "\<not> (0xE0 \<le> d \<and> d \<le> 0xFE \<and> d \<noteq> 0xF7)"
    by blast
  then have "d = k"
  proof cases
    case a
    then have "d - 0x20 = canonicalize latin1 k"
      using eq canonicalize_latin1_ascii [of d] by (simp add: d_def)
    with a k show ?thesis
      unfolding ck keyword_unit_def by (auto split: if_splits; unat_arith)
  next
    case b
    then have "d - 0x20 = canonicalize latin1 k"
      using eq canonicalize_latin1_supplement [of d] by (simp add: d_def)
    with b k show ?thesis
      unfolding ck keyword_unit_def by (auto split: if_splits; unat_arith)
  next
    case c
    then have "(if d = 0xFF then 0x178 else if d = 0xB5 then 0x39C else d) = canonicalize latin1 k"
      using eq canonicalize_latin1_other [of d] by (simp add: d_def)
    with c nc k show ?thesis
      unfolding ck keyword_unit_def by (auto split: if_splits; unat_arith)
  qed
  then show ?thesis by (simp add: d_def)
qed

lemma latin1_exact: "exact_under_i latin1 (toLowerCase latin1 m)"
  unfolding exact_under_i_def
  by (auto simp: latin1_def dest!: keyword_units_shape intro: latin1_exact_unit)

lemma latin1_lower_unit_idem: "latin1_lower_unit (latin1_lower_unit c) = latin1_lower_unit c"
  using latin1_lower_unit_not_capital [of c]
  by (subst latin1_lower_unit_def) simp

lemma latin1_toLowerCase_idem: "toLowerCase latin1 (toLowerCase latin1 m) = toLowerCase latin1 m"
  by (simp add: latin1_def latin1_lower_unit_idem)

lemma latin1_lower_ascii:
  "toLowerCase latin1 seven_neu = seven_neu"
  "toLowerCase latin1 (str ''EMERGENT'') = str ''emergent''"
  "toLowerCase latin1 ueberraschend = ueberraschend"
  "toLowerCase latin1 [] = []"
  by code_simp+

subsection \<open>The score is the clamped weighted count\<close>

text \<open>
  C1. For every text, the score that \<open>analyzeMessage\<close> stores is
  min(emergencePoints + surprises * 10, 100), where emergencePoints is 15 times the number of
  occurrences of the emergence keywords in the lowered text, counted keyword by keyword
  from left to right without overlap and summed, and surprises is the same count for the five
  surprise markers; the score lies between 0 and 100. The runtime is any whose
  case-insensitive comparison is exact on the lowered text.
\<close>

theorem analyzeMessage_score:
  assumes "exact_under_i rt (toLowerCase rt message)"
  shows "emergenceScore (analyzeMessage rt message s)
           = min (15 * (\<Sum>k\<leftarrow>emergenceKeywords. int (occurrences k (toLowerCase rt message)))
                  + (\<Sum>w\<leftarrow>surpriseWords. int (occurrences w (toLowerCase rt message))) * 10) 100
         \<and> 0 \<le> emergenceScore (analyzeMessage rt message s)
         \<and> emergenceScore (analyzeMessage rt message s) \<le> 100"
  using emergenceScore_spec_score [OF assms, of s] spec_score_range [of "toLowerCase rt message"]
  by (simp add: spec_score_def)

theorem analyzeMessage_score_witness:
  "exact_under_i latin1 (toLowerCase latin1 (str ''Wow neu!''))
   \<and> emergenceScore (analyzeMessage latin1 (str ''Wow neu!'') (loaded 0)) = 35"
proof -
  have h: "exact_under_i latin1 (toLowerCase latin1 (str ''Wow neu!''))"
    by (rule latin1_exact)
  have v: "spec_score (toLowerCase latin1 (str ''Wow neu!'')) = 35"
    by code_simp
  show ?thesis
    using analyzeMessage_score [OF h, of "loaded 0"] h v by (simp add: spec_score_def)
qed

subsection \<open>Monotonicity and saturation\<close>

lemma matches_here_append: "matches_here canon p (p @ r)"
  by (induction p) simp_all

lemma global_match_count_append:
  "p \<noteq> [] \<Longrightarrow> global_match_count canon p (p @ r) = 1 + global_match_count canon p r"
proof -
  assume "p \<noteq> []"
  then obtain a ps where p: "p = a # ps" by (cases p) auto
  have "matches_here canon (a # ps) (a # ps @ r)"
    using matches_here_append [of canon "a # ps" r] by simp
  then show ?thesis
    unfolding p by simp
qed

lemma global_match_count_replicate:
  "p \<noteq> [] \<Longrightarrow> global_match_count canon p (concat (replicate n p)) = n"
proof (induction n)
  case 0
  then show ?case by simp
next
  case (Suc n)
  then show ?case
    using global_match_count_append [of p canon "concat (replicate n p)"] by simp
qed

lemma neu_keyword: "str ''neu'' \<in> set emergenceKeywords"
  by (simp add: emergenceKeywords_def)

lemma seven_neu_matches:
  assumes "toLowerCase rt seven_neu = seven_neu"
  shows "7 \<le> keyword_matches rt seven_neu"
proof -
  have "match_gi_length rt (str ''neu'') seven_neu = 7"
    unfolding match_gi_length_def seven_neu_def
    by (rule global_match_count_replicate) (simp add: str_def)
  moreover have "match_gi_length rt (str ''neu'') seven_neu
        \<le> (\<Sum>k\<leftarrow>emergenceKeywords. match_gi_length rt k seven_neu)"
    by (rule member_le_sum_list) (use neu_keyword in auto)
  ultimately show ?thesis
    by (simp add: keyword_matches_def assms)
qed

text \<open>
  C7. The score does not decrease when the number of keyword matches and the number of
  surprise matches do not decrease; a text whose weighted matches reach 100 scores exactly
  100, as the text of seven times \<open>neu\<close> does; no text scores more than 100.
\<close>

theorem analyzeMessage_monotone_saturating:
  "(keyword_matches rt m1 \<le> keyword_matches rt m2 \<and> surprise_matches rt m1 \<le> surprise_matches rt m2
      \<longrightarrow> emergenceScore (analyzeMessage rt m1 s1) \<le> emergenceScore (analyzeMessage rt m2 s2))
   \<and> (100 \<le> 15 * keyword_matches rt m + 10 * surprise_matches rt m
      \<longrightarrow> emergenceScore (analyzeMessage rt m s) = 100)
   \<and> (toLowerCase rt seven_neu = seven_neu
      \<longrightarrow> emergenceScore (analyzeMessage rt seven_neu s) = 100)
   \<and> emergenceScore (analyzeMessage rt m s) \<le> 100"
proof (intro conjI impI)
  assume "keyword_matches rt m1 \<le> keyword_matches rt m2
          \<and> surprise_matches rt m1 \<le> surprise_matches rt m2"
  then show "emergenceScore (analyzeMessage rt m1 s1) \<le> emergenceScore (analyzeMessage rt m2 s2)"
    unfolding emergenceScore_matches by linarith
next
  assume "100 \<le> 15 * keyword_matches rt m + 10 * surprise_matches rt m"
  then have "100 \<le> 15 * int (keyword_matches rt m) + 10 * int (surprise_matches rt m)"
    by linarith
  then show "emergenceScore (analyzeMessage rt m s) = 100"
    by (simp add: emergenceScore_matches)
next
  assume "toLowerCase rt seven_neu = seven_neu"
  then have "7 \<le> keyword_matches rt seven_neu"
    by (rule seven_neu_matches)
  then have "100 \<le> 15 * int (keyword_matches rt seven_neu) + 10 * int (surprise_matches rt seven_neu)"
    by linarith
  then show "emergenceScore (analyzeMessage rt seven_neu s) = 100"
    by (simp add: emergenceScore_matches)
next
  show "emergenceScore (analyzeMessage rt m s) \<le> 100"
    by (simp add: emergenceScore_matches)
qed

lemma sample_matches:
  "keyword_matches latin1 (str ''neu'') = 1" "surprise_matches latin1 (str ''neu'') = 0"
  "keyword_matches latin1 (str ''Wow neu!'') = 1" "surprise_matches latin1 (str ''Wow neu!'') = 2"
  unfolding matches_exact [OF latin1_exact] by code_simp+

theorem analyzeMessage_monotone_saturating_witness:
  "keyword_matches latin1 (str ''neu'') \<le> keyword_matches latin1 (str ''Wow neu!'')
   \<and> surprise_matches latin1 (str ''neu'') \<le> surprise_matches latin1 (str ''Wow neu!'')
   \<and> emergenceScore (analyzeMessage latin1 (str ''neu'') scored)
       \<le> emergenceScore (analyzeMessage latin1 (str ''Wow neu!'') scored)
   \<and> toLowerCase latin1 seven_neu = seven_neu
   \<and> 100 \<le> 15 * keyword_matches latin1 seven_neu + 10 * surprise_matches latin1 seven_neu
   \<and> emergenceScore (analyzeMessage latin1 seven_neu scored) = 100"
proof -
  have "7 \<le> keyword_matches latin1 seven_neu"
    by (rule seven_neu_matches) (rule latin1_lower_ascii(1))
  then have big: "100 \<le> 15 * keyword_matches latin1 seven_neu + 10 * surprise_matches latin1 seven_neu"
    by linarith
  show ?thesis
    using analyzeMessage_monotone_saturating
      [where rt = latin1 and ?m1.0 = "str ''neu''" and ?m2.0 = "str ''Wow neu!''"
         and ?s1.0 = scored and ?s2.0 = scored and m = seven_neu and s = scored]
      big latin1_lower_ascii(1)
    by (simp add: sample_matches)
qed

subsection \<open>Case\<close>

text \<open>
  C8. The score of a text is the score of its lowered form, for a runtime whose
  \<^verbatim>\<open>toLowerCase\<close> changes nothing in a lowered text; in particular \<open>EMERGENT\<close> scores
  what \<open>emergent\<close> scores.
\<close>

theorem analyzeMessage_case_insensitive:
  assumes "\<forall>m. toLowerCase rt (toLowerCase rt m) = toLowerCase rt m"
    and "toLowerCase rt (str ''EMERGENT'') = str ''emergent''"
  shows "emergenceScore (analyzeMessage rt message s)
           = emergenceScore (analyzeMessage rt (toLowerCase rt message) s)
         \<and> emergenceScore (analyzeMessage rt (str ''EMERGENT'') s)
           = emergenceScore (analyzeMessage rt (str ''emergent'') s)"
proof -
  have "toLowerCase rt (str ''emergent'') = str ''emergent''"
    using assms by metis
  then show ?thesis
    using assms by (simp add: emergenceScore_analyzeMessage)
qed

theorem analyzeMessage_case_insensitive_witness:
  "(\<forall>m. toLowerCase latin1 (toLowerCase latin1 m) = toLowerCase latin1 m)
   \<and> toLowerCase latin1 (str ''EMERGENT'') = str ''emergent''
   \<and> emergenceScore (analyzeMessage latin1 (str ''Wow NEU!'') scored)
       = emergenceScore (analyzeMessage latin1 (toLowerCase latin1 (str ''Wow NEU!'')) scored)
   \<and> emergenceScore (analyzeMessage latin1 (str ''EMERGENT'') scored)
       = emergenceScore (analyzeMessage latin1 (str ''emergent'') scored)"
proof -
  have i: "\<forall>m. toLowerCase latin1 (toLowerCase latin1 m) = toLowerCase latin1 m"
    by (simp add: latin1_toLowerCase_idem)
  show ?thesis
    using analyzeMessage_case_insensitive [OF i latin1_lower_ascii(2), of "str ''Wow NEU!''" scored]
      i latin1_lower_ascii(2)
    by simp
qed

subsection \<open>Texts without keywords\<close>

lemma occurrences_no_sublist: "\<not> sublist p t \<Longrightarrow> occurrences p t = 0"
proof (induction p t rule: occurrences.induct)
  case (1 p)
  then show ?case by auto
next
  case (2 p c cs)
  have np: "\<not> prefix p (c # cs)"
    using "2.prems" by (auto dest: prefix_imp_sublist)
  have "\<not> sublist p cs"
    using "2.prems" by (simp add: sublist_Cons_right)
  then have "occurrences p cs = 0"
    using np by (intro "2.IH"(2))
  with np show ?case by simp
qed

lemma keyword_not_empty: "k \<in> set (emergenceKeywords @ surpriseWords) \<Longrightarrow> k \<noteq> []"
  by (auto simp: emergenceKeywords_def surpriseWords_def str_def)

lemma sum_list_int_zero: "(\<And>x. x \<in> set xs \<Longrightarrow> f x = 0) \<Longrightarrow> (\<Sum>x\<leftarrow>xs. int (f x)) = 0"
  by (induction xs) simp_all

text \<open>
  C9. The empty text scores 0. A text in whose lowered form no emergence keyword and no
  surprise marker occurs scores 0, and 0 is stored whatever score the state held before.
\<close>

theorem analyzeMessage_zero:
  "(toLowerCase rt [] = [] \<longrightarrow> emergenceScore (analyzeMessage rt [] s) = 0)
   \<and> (exact_under_i rt (toLowerCase rt message)
      \<and> (\<forall>k \<in> set (emergenceKeywords @ surpriseWords). \<not> sublist k (toLowerCase rt message))
      \<longrightarrow> emergenceScore (analyzeMessage rt message s) = 0)"
proof (intro conjI impI)
  assume e: "toLowerCase rt [] = []"
  have "\<And>k. k \<in> set (emergenceKeywords @ surpriseWords) \<Longrightarrow> match_gi_length rt k [] = 0"
    using keyword_not_empty by (simp add: match_gi_length_def)
  then have "(\<Sum>k\<leftarrow>emergenceKeywords. int (match_gi_length rt k [])) = 0"
       "(\<Sum>k\<leftarrow>surpriseWords. int (match_gi_length rt k [])) = 0"
    by (auto intro!: sum_list_int_zero)
  then show "emergenceScore (analyzeMessage rt [] s) = 0"
    by (simp add: emergenceScore_analyzeMessage e)
next
  assume a: "exact_under_i rt (toLowerCase rt message)
      \<and> (\<forall>k \<in> set (emergenceKeywords @ surpriseWords). \<not> sublist k (toLowerCase rt message))"
  then have "\<And>k. k \<in> set (emergenceKeywords @ surpriseWords)
               \<Longrightarrow> occurrences k (toLowerCase rt message) = 0"
    by (auto intro: occurrences_no_sublist)
  then have "(\<Sum>k\<leftarrow>emergenceKeywords. int (occurrences k (toLowerCase rt message))) = 0"
       "(\<Sum>k\<leftarrow>surpriseWords. int (occurrences k (toLowerCase rt message))) = 0"
    by (auto intro!: sum_list_int_zero)
  then have "spec_score (toLowerCase rt message) = 0"
    by (simp add: spec_score_def)
  then show "emergenceScore (analyzeMessage rt message s) = 0"
    using a emergenceScore_spec_score [of rt message s] by simp
qed

lemma hallo_welt_plain:
  "\<forall>k \<in> set (emergenceKeywords @ surpriseWords). \<not> sublist k (toLowerCase latin1 (str ''Hallo Welt''))"
  by code_simp

theorem analyzeMessage_zero_witness:
  "toLowerCase latin1 [] = [] \<and> emergenceScore (analyzeMessage latin1 [] scored) = 0
   \<and> exact_under_i latin1 (toLowerCase latin1 (str ''Hallo Welt''))
   \<and> emergenceScore scored = 35
   \<and> emergenceScore (analyzeMessage latin1 (str ''Hallo Welt'') scored) = 0"
proof -
  have s: "emergenceScore scored = 35"
    by (simp add: scored_def)
  show ?thesis
    using analyzeMessage_zero [of latin1 scored "str ''Hallo Welt''"]
      latin1_exact [of "str ''Hallo Welt''"] hallo_welt_plain latin1_lower_ascii(4) s
    by blast
qed

subsection \<open>The keyword that contains a marker\<close>









section \<open>Properties of the conversation\<close>

lemma addMessage_fields [simp]:
  "conversationHistory (addMessage text ty s) = conversationHistory s"
  "isLoading (addMessage text ty s) = isLoading s"
  "emergenceScore (addMessage text ty s) = emergenceScore s"
  "chatInput (addMessage text ty s) = chatInput s"
  by (simp_all add: addMessage_def split: option.split)

lemma showThinkingMessage_fields [simp]:
  "conversationHistory (showThinkingMessage s) = conversationHistory s"
  "isLoading (showThinkingMessage s) = isLoading s"
  by (simp_all add: showThinkingMessage_def split: option.split)

lemma hideThinkingMessage_fields [simp]:
  "conversationHistory (hideThinkingMessage s) = conversationHistory s"
  "isLoading (hideThinkingMessage s) = isLoading s"
  by (simp_all add: hideThinkingMessage_def split: option.split)

lemma analyzeMessage_fields [simp]:
  "conversationHistory (analyzeMessage rt m s) = conversationHistory s"
  "isLoading (analyzeMessage rt m s) = isLoading s"
  "chatMessages (analyzeMessage rt m s) = chatMessages s"
  by (simp_all add: analyzeMessage_def Let_def)

lemma setLoading_fields [simp]:
  "conversationHistory (setLoading b s) = conversationHistory s"
  "isLoading (setLoading b s) = b"
  "chatMessages (setLoading b s) = chatMessages s"
  by (simp_all add: setLoading_def)

lemma caught_fields [simp]:
  "fst (caught e s) = Some e"
  "conversationHistory (snd (caught e s)) = conversationHistory s"
  "isLoading (snd (caught e s)) = isLoading s"
  by (simp_all add: caught_def)

lemma addMessage_value_fields:
  assumes "addMessage_value rt text ty s = Inr s'"
  shows "conversationHistory s' = conversationHistory s" "isLoading s' = isLoading s"
  using assms by (auto simp: addMessage_value_def split: option.splits)

lemma analyzeMessage_value_fields:
  assumes "analyzeMessage_value rt message s = Inr s'"
  shows "conversationHistory s' = conversationHistory s" "isLoading s' = isLoading s"
  using assms by (auto simp: analyzeMessage_value_def split: option.splits)

lemma getAIResponse_isLoading [simp]:
  "isLoading (snd (getAIResponse rt generateContent s)) = isLoading s"
  by (auto simp: getAIResponse_def Let_def addMessage_value_fields analyzeMessage_value_fields
        split: sum.split)

lemma slice_last: "0 < n \<Longrightarrow> slice (- int n) xs = drop (length xs - n) xs"
  by (auto simp: slice_def Let_def max_def nat_diff_distrib')

lemma getAIResponse_failure:
  "generateContent (contents_of (conversationHistory s)) = Inl e \<Longrightarrow>
   getAIResponse rt generateContent s =
     (Some e, addMessage (0x274C # str '' Fehler bei der Gemini API: '' @ error_message e) System s)"
  by (simp add: getAIResponse_def caught_def)

lemma getAIResponse_history_success:
  assumes "generateContent (contents_of (conversationHistory s)) = Inr m"
  shows "conversationHistory (snd (getAIResponse rt generateContent s)) =
     (if length (conversationHistory s) + 1 > 20
      then drop (length (conversationHistory s) + 1 - 18) (conversationHistory s @ [assistant_turn m])
      else conversationHistory s @ [assistant_turn m])"
  using assms slice_last [of 18 "conversationHistory s @ [assistant_turn m]"]
  by (auto simp: getAIResponse_def Let_def assistant_turn_def
        addMessage_value_fields analyzeMessage_value_fields split: sum.split)

lemma sendMessage_failure:
  assumes "trim (chatInput s) \<noteq> []" and "\<not> isLoading s"
    and "generateContent (contents_of (conversationHistory s @ [user_turn s])) = Inl e"
  shows "sendMessage rt generateContent s =
     hideThinkingMessage (setLoading False
       (addMessage (0x274C # str '' Fehler: '' @ error_message e @ [0xA, 0xA]
                      @ str (''Bitte versuche es sp'' @ CHR 0xE4 # ''ter nochmal.'')) System
         (addMessage (0x274C # str '' Fehler bei der Gemini API: '' @ error_message e) System
           (showThinkingMessage (setLoading True
             ((addMessage (trim (chatInput s)) Human s)
                \<lparr>chatInput := [], conversationHistory := conversationHistory s @ [user_turn s]\<rparr>))))))"
proof -
  let ?s4 = "showThinkingMessage (setLoading True
             ((addMessage (trim (chatInput s)) Human s)
                \<lparr>chatInput := [], conversationHistory := conversationHistory s @ [user_turn s]\<rparr>))"
  have h: "conversationHistory ?s4 = conversationHistory s @ [user_turn s]"
    by (simp add: setLoading_def)
  have "getAIResponse rt generateContent ?s4 =
     (Some e, addMessage (0x274C # str '' Fehler bei der Gemini API: '' @ error_message e) System ?s4)"
    by (rule getAIResponse_failure) (simp add: setLoading_def assms(3))
  then show ?thesis
    using assms(1,2) by (simp add: sendMessage_def Let_def user_turn_def)
qed

lemma sendMessage_history_failure:
  assumes "trim (chatInput s) \<noteq> []" and "\<not> isLoading s"
    and "generateContent (contents_of (conversationHistory s @ [user_turn s])) = Inl e"
  shows "conversationHistory (sendMessage rt generateContent s) = conversationHistory s @ [user_turn s]"
  using sendMessage_failure [where e = e and s = s and generateContent = generateContent and rt = rt] assms
  by (simp add: setLoading_def)

lemma sendMessage_history_run:
  assumes "trim (chatInput s) \<noteq> []" and "\<not> isLoading s"
  shows "\<exists>s4. conversationHistory s4 = conversationHistory s @ [user_turn s]
          \<and> conversationHistory (sendMessage rt generateContent s) =
              conversationHistory (snd (getAIResponse rt generateContent s4))"
proof -
  define s4 where "s4 = showThinkingMessage (setLoading True
             ((addMessage (trim (chatInput s)) Human s)
                \<lparr>chatInput := [], conversationHistory := conversationHistory s @ [user_turn s]\<rparr>))"
  have h: "conversationHistory s4 = conversationHistory s @ [user_turn s]"
    by (simp add: s4_def)
  have run: "sendMessage rt generateContent s =
          (case getAIResponse rt generateContent s4 of
             (thrown, s5) \<Rightarrow>
               hideThinkingMessage (setLoading False
                 (case thrown of None \<Rightarrow> s5
                  | Some error \<Rightarrow>
                      addMessage (0x274C # str '' Fehler: '' @ error_message error @ [0xA, 0xA]
                               @ str (''Bitte versuche es sp'' @ CHR 0xE4 # ''ter nochmal.''))
                            System s5)))"
    using assms(1,2) unfolding sendMessage_def Let_def s4_def user_turn_def by simp
  obtain thrown s5 where r: "getAIResponse rt generateContent s4 = (thrown, s5)"
    by (cases "getAIResponse rt generateContent s4")
  have "conversationHistory (sendMessage rt generateContent s) = conversationHistory s5"
    unfolding run r by (cases thrown) simp_all
  then have "conversationHistory (sendMessage rt generateContent s) =
              conversationHistory (snd (getAIResponse rt generateContent s4))"
    by (simp add: r)
  with h show ?thesis by blast
qed

lemma sendMessage_history_success:
  assumes "trim (chatInput s) \<noteq> []" and "\<not> isLoading s"
    and "generateContent (contents_of (conversationHistory s @ [user_turn s])) = Inr m"
  shows "conversationHistory (sendMessage rt generateContent s) =
     (if length (conversationHistory s) + 2 > 20
      then drop (length (conversationHistory s) + 2 - 18)
             (conversationHistory s @ [user_turn s, assistant_turn m])
      else conversationHistory s @ [user_turn s, assistant_turn m])"
proof -
  obtain s4 where h: "conversationHistory s4 = conversationHistory s @ [user_turn s]"
    and run: "conversationHistory (sendMessage rt generateContent s) =
              conversationHistory (snd (getAIResponse rt generateContent s4))"
    using sendMessage_history_run [where generateContent = generateContent and s = s and rt = rt] assms(1,2)
    by blast
  have ok: "generateContent (contents_of (conversationHistory s4)) = Inr m"
    by (simp add: h assms(3))
  have "conversationHistory (snd (getAIResponse rt generateContent s4)) =
     (if length (conversationHistory s4) + 1 > 20
      then drop (length (conversationHistory s4) + 1 - 18) (conversationHistory s4 @ [assistant_turn m])
      else conversationHistory s4 @ [assistant_turn m])"
    using getAIResponse_history_success [where generateContent = generateContent and s = s4 and m = m and rt = rt] ok
    by blast
  then show ?thesis
    unfolding run h by simp
qed

lemma typed_hallo_guard: "trim (chatInput typed_hallo) = str ''Hallo'' \<and> \<not> isLoading typed_hallo"
  by code_simp

lemma quota_exceeded_fails: "quota_exceeded contents = Inl (Error (str ''quota''))"
  by (simp add: quota_exceeded_def)

lemma replies_wow_succeeds: "replies_wow contents = Inr (Some (str ''Wow neu!''))"
  by (simp add: replies_wow_def)

lemma numbered_history_length: "length (numbered_history n) = n"
  by (simp add: numbered_history_def)

lemma full_history_length: "length (conversationHistory full_history) = 20"
  by (simp add: full_history_def numbered_history_def)

lemma loaded_facts:
  "length (conversationHistory (loaded now)) = 1" "\<not> isLoading (loaded now)"
  "chatMessages (loaded now) \<noteq> None"
  by (simp_all add: loaded_def initiateConversation_def Let_def addMessage_def)

subsection \<open>The loading flag\<close>

text \<open>
  C6. Every call of \<open>sendMessage\<close> that passes the guard (the trimmed input is not empty
  and no request is pending) ends with \<open>isLoading\<close> false, whether the request returned a
  reply or threw.
\<close>

theorem sendMessage_clears_isLoading:
  assumes "trim (chatInput s) \<noteq> []" and "\<not> isLoading s"
  shows "\<not> isLoading (sendMessage rt generateContent s)"
  using assms
  by (simp add: sendMessage_def Let_def setLoading_def split: prod.split option.split)

theorem sendMessage_clears_isLoading_witness:
  "trim (chatInput typed_hallo) \<noteq> [] \<and> \<not> isLoading typed_hallo
   \<and> \<not> isLoading (sendMessage latin1 quota_exceeded typed_hallo)
   \<and> \<not> isLoading (sendMessage latin1 replies_wow typed_hallo)"
proof -
  have g: "trim (chatInput typed_hallo) \<noteq> []" "\<not> isLoading typed_hallo"
    using typed_hallo_guard by (simp_all add: str_def)
  show ?thesis
    using g sendMessage_clears_isLoading [OF g, of latin1 quota_exceeded]
      sendMessage_clears_isLoading [OF g, of latin1 replies_wow]
    by simp
qed

subsection \<open>Trimming the history\<close>

lemma sendSuggestion_quota_exceeded:
  assumes "trim text \<noteq> []" and "\<not> isLoading s"
  shows "conversationHistory (sendSuggestion rt quota_exceeded text s)
           = conversationHistory s @ [\<lparr>role = str ''user'', content = Some (trim text)\<rparr>]
         \<and> \<not> isLoading (sendSuggestion rt quota_exceeded text s)"
proof -
  let ?s = "s\<lparr>chatInput := text\<rparr>"
  have g: "trim (chatInput ?s) \<noteq> []" "\<not> isLoading ?s"
    using assms by simp_all
  have idle: "\<not> isLoading (sendMessage rt quota_exceeded ?s)"
    using g by (simp add: sendMessage_def Let_def split: prod.split option.split)
  have "quota_exceeded (contents_of (conversationHistory ?s @ [user_turn ?s]))
          = Inl (Error (str ''quota''))"
    by (simp add: quota_exceeded_def)
  then have "conversationHistory (sendMessage rt quota_exceeded ?s)
               = conversationHistory ?s @ [user_turn ?s]"
    using g sendMessage_history_failure [where s = ?s and generateContent = quota_exceeded and rt = rt]
    by blast
  with idle show ?thesis
    by (simp add: sendSuggestion_def user_turn_def)
qed

lemma session_quota_exceeded:
  assumes "trim text \<noteq> []" and "\<not> isLoading s"
  shows "conversationHistory (session rt (replicate k (text, quota_exceeded)) s)
           = conversationHistory s @ replicate k \<lparr>role = str ''user'', content = Some (trim text)\<rparr>"
  using assms(2)
proof (induction k arbitrary: s)
  case 0
  show ?case by simp
next
  case (Suc k)
  have step: "conversationHistory (sendSuggestion rt quota_exceeded text s)
           = conversationHistory s @ [\<lparr>role = str ''user'', content = Some (trim text)\<rparr>]"
    "\<not> isLoading (sendSuggestion rt quota_exceeded text s)"
    using sendSuggestion_quota_exceeded [OF assms(1) Suc.prems] by simp_all
  show ?case
    using Suc.IH [OF step(2)] step(1) by simp
qed

text \<open>
  C3, as stated, fails on the program: not every append that makes the history longer than
  20 turns is followed by the trim. From the loaded page, twenty submissions whose requests
  are refused leave the greeting and twenty user turns: the twentieth append makes 21
  turns, and all 21 stay.
\<close>

theorem user_append_beyond_20_not_trimmed:
  "conversationHistory (session latin1 (replicate 20 (str ''Hallo'', quota_exceeded)) (loaded 0))
     = conversationHistory (loaded 0)
         @ replicate 20 \<lparr>role = str ''user'', content = Some (str ''Hallo'')\<rparr>
   \<and> length (conversationHistory
                (session latin1 (replicate 20 (str ''Hallo'', quota_exceeded)) (loaded 0))) = 21"
proof -
  have t: "trim (str ''Hallo'') = str ''Hallo''"
    by code_simp
  then have n: "trim (str ''Hallo'') \<noteq> []"
    by (simp add: str_def)
  have h: "conversationHistory (session latin1 (replicate 20 (str ''Hallo'', quota_exceeded)) (loaded 0))
     = conversationHistory (loaded 0)
         @ replicate 20 \<lparr>role = str ''user'', content = Some (trim (str ''Hallo''))\<rparr>"
    by (rule session_quota_exceeded [OF n loaded_facts(2)])
  have "length (conversationHistory (loaded 0)
          @ replicate 20 \<lparr>role = str ''user'', content = Some (trim (str ''Hallo''))\<rparr>) = 21"
    by (simp only: length_append length_replicate loaded_facts(1))
  then show ?thesis
    unfolding h t by simp
qed

text \<open>
  C3, amended. When the append of a reply makes the history longer than 20 turns, the
  history is replaced by its last 18 turns in their order, the older ones being dropped and
  the reply being the last; from 21 turns the three oldest go.
\<close>

theorem getAIResponse_trims_to_last_18:
  assumes "generateContent (contents_of (conversationHistory s)) = Inr aiMessage"
    and "length (conversationHistory s @ [assistant_turn aiMessage]) > 20"
  shows "conversationHistory (snd (getAIResponse rt generateContent s))
           = drop (length (conversationHistory s @ [assistant_turn aiMessage]) - 18)
               (conversationHistory s @ [assistant_turn aiMessage])
         \<and> length (conversationHistory (snd (getAIResponse rt generateContent s))) = 18
         \<and> take (length (conversationHistory s @ [assistant_turn aiMessage]) - 18)
               (conversationHistory s @ [assistant_turn aiMessage])
             @ conversationHistory (snd (getAIResponse rt generateContent s))
           = conversationHistory s @ [assistant_turn aiMessage]
         \<and> last (conversationHistory (snd (getAIResponse rt generateContent s)))
           = assistant_turn aiMessage"
proof -
  let ?h = "conversationHistory s @ [assistant_turn aiMessage]"
  let ?h' = "conversationHistory (snd (getAIResponse rt generateContent s))"
  have eq: "?h' = drop (length ?h - 18) ?h"
    using assms
      getAIResponse_history_success [where generateContent = generateContent and s = s and m = aiMessage and rt = rt]
    by simp
  have len: "length ?h' = 18"
    using assms(2) unfolding eq by simp
  have app: "take (length ?h - 18) ?h @ ?h' = ?h"
    unfolding eq by (rule append_take_drop_id)
  have "?h' \<noteq> []" using len by auto
  then have "last ?h = last ?h'"
    using app by (metis last_appendR)
  then have lst: "last ?h' = assistant_turn aiMessage" by simp
  from eq len app lst show ?thesis by blast
qed

theorem getAIResponse_trims_to_last_18_witness:
  "replies_wow (contents_of (conversationHistory full_history)) = Inr (Some (str ''Wow neu!''))
   \<and> length (conversationHistory full_history @ [assistant_turn (Some (str ''Wow neu!''))]) = 21
   \<and> conversationHistory (snd (getAIResponse latin1 replies_wow full_history))
       = drop 3 (numbered_history 20 @ [assistant_turn (Some (str ''Wow neu!''))])
   \<and> length (conversationHistory (snd (getAIResponse latin1 replies_wow full_history))) = 18"
proof -
  have len: "length (conversationHistory full_history @ [assistant_turn (Some (str ''Wow neu!''))]) > 20"
    by (simp add: full_history_length)
  have h: "conversationHistory full_history = numbered_history 20"
    by (simp add: full_history_def)
  show ?thesis
    using getAIResponse_trims_to_last_18
      [where generateContent = replies_wow and s = full_history
         and aiMessage = "Some (str ''Wow neu!'')" and rt = latin1, OF replies_wow_succeeds len]
    by (simp add: replies_wow_succeeds h numbered_history_length)
qed

lemma sendSuggestion_refuses_long:
  assumes "trim text \<noteq> []" and "\<not> isLoading s"
  shows "length (conversationHistory (sendSuggestion rt refuses_long text s))
           = next_length (length (conversationHistory s))
         \<and> \<not> isLoading (sendSuggestion rt refuses_long text s)"
proof -
  let ?s = "s\<lparr>chatInput := text\<rparr>"
  have g: "trim (chatInput ?s) \<noteq> []" "\<not> isLoading ?s"
    using assms by simp_all
  have idle: "\<not> isLoading (sendMessage rt refuses_long ?s)"
    using g by (simp add: sendMessage_def Let_def setLoading_def split: prod.split option.split)
  show ?thesis
  proof (cases "length (conversationHistory s) + 1 > 20")
    case True
    then have "refuses_long (contents_of (conversationHistory ?s @ [user_turn ?s]))
                 = Inl (Error (str ''too long''))"
      by (simp add: refuses_long_def contents_of_def)
    then have "conversationHistory (sendMessage rt refuses_long ?s)
                 = conversationHistory ?s @ [user_turn ?s]"
      using g sendMessage_history_failure [where s = ?s and generateContent = refuses_long and rt = rt]
      by blast
    with True idle show ?thesis
      by (simp add: sendSuggestion_def next_length_def)
  next
    case False
    then have "refuses_long (contents_of (conversationHistory ?s @ [user_turn ?s])) = Inr (Some (str ''ok''))"
      by (simp add: refuses_long_def contents_of_def)
    then have "conversationHistory (sendMessage rt refuses_long ?s) =
       (if length (conversationHistory ?s) + 2 > 20
        then drop (length (conversationHistory ?s) + 2 - 18)
               (conversationHistory ?s @ [user_turn ?s, assistant_turn (Some (str ''ok''))])
        else conversationHistory ?s @ [user_turn ?s, assistant_turn (Some (str ''ok''))])"
      using g sendMessage_history_success [where s = ?s and generateContent = refuses_long and rt = rt]
      by blast
    with False idle show ?thesis
      by (simp add: sendSuggestion_def next_length_def)
  qed
qed

lemma session_refuses_long:
  assumes "trim text \<noteq> []" and "\<not> isLoading s"
  shows "length (conversationHistory (session rt (replicate k (text, refuses_long)) s))
           = (next_length ^^ k) (length (conversationHistory s))"
  using assms(2)
proof (induction k arbitrary: s)
  case 0
  show ?case by simp
next
  case (Suc k)
  have step: "length (conversationHistory (sendSuggestion rt refuses_long text s))
                = next_length (length (conversationHistory s))"
    "\<not> isLoading (sendSuggestion rt refuses_long text s)"
    using sendSuggestion_refuses_long [OF assms(1) Suc.prems] by simp_all
  show ?case
    using Suc.IH [OF step(2)] step(1) by (simp add: funpow_swap1)
qed

text \<open>
  C2, as stated, fails on the program: the trim follows the append of a reply only. From
  the loaded page, eleven submissions answered with \<open>ok\<close> leave 20 turns; the twelfth
  appends the user's turn, the request carries 21 turns and is refused, and the history
  stays at 21 turns.
\<close>

theorem history_exceeds_20_after_user_append:
  "length (conversationHistory
            (session latin1 (replicate 12 (str ''Hallo'', refuses_long)) (loaded 0))) = 21"
proof -
  have t: "trim (str ''Hallo'') \<noteq> []"
    by code_simp
  have n: "(next_length ^^ 12) 1 = 21"
    by (simp add: eval_nat_numeral next_length_def)
  have "length (conversationHistory
            (session latin1 (replicate 12 (str ''Hallo'', refuses_long)) (loaded 0)))
          = (next_length ^^ 12) (length (conversationHistory (loaded 0)))"
    by (rule session_refuses_long [OF t loaded_facts(2)])
  then show ?thesis
    by (simp only: loaded_facts(1) n)
qed

text \<open>
  C2, amended. Immediately after the append of a reply and the trim that follows it, the
  history has at most 20 turns, whatever its length was: after \<open>getAIResponse\<close> returns
  normally, and so after every \<open>sendMessage\<close> whose request is answered.
\<close>

theorem history_bounded_after_reply:
  "(generateContent (contents_of (conversationHistory s)) = Inr aiMessage
      \<longrightarrow> length (conversationHistory (snd (getAIResponse rt generateContent s))) \<le> 20)
   \<and> (trim (chatInput s) \<noteq> [] \<and> \<not> isLoading s
      \<and> generateContent (contents_of (conversationHistory s @ [user_turn s])) = Inr aiMessage
      \<longrightarrow> length (conversationHistory (sendMessage rt generateContent s)) \<le> 20)"
proof (intro conjI impI)
  assume "generateContent (contents_of (conversationHistory s)) = Inr aiMessage"
  then show "length (conversationHistory (snd (getAIResponse rt generateContent s))) \<le> 20"
    using getAIResponse_history_success [where generateContent = generateContent and s = s and m = aiMessage and rt = rt]
    by simp
next
  assume "trim (chatInput s) \<noteq> [] \<and> \<not> isLoading s
      \<and> generateContent (contents_of (conversationHistory s @ [user_turn s])) = Inr aiMessage"
  then show "length (conversationHistory (sendMessage rt generateContent s)) \<le> 20"
    using sendMessage_history_success [where generateContent = generateContent and s = s and m = aiMessage and rt = rt]
    by simp
qed

theorem history_bounded_after_reply_witness:
  "replies_wow (contents_of (conversationHistory full_history)) = Inr (Some (str ''Wow neu!''))
   \<and> length (conversationHistory full_history) = 20
   \<and> length (conversationHistory (snd (getAIResponse latin1 replies_wow full_history))) \<le> 20
   \<and> trim (chatInput typed_hallo) \<noteq> [] \<and> \<not> isLoading typed_hallo
   \<and> replies_wow (contents_of (conversationHistory typed_hallo @ [user_turn typed_hallo]))
       = Inr (Some (str ''Wow neu!''))
   \<and> length (conversationHistory (sendMessage latin1 replies_wow typed_hallo)) \<le> 20"
proof -
  have g: "trim (chatInput typed_hallo) \<noteq> []" "\<not> isLoading typed_hallo"
    using typed_hallo_guard by (simp_all add: str_def)
  show ?thesis
    using history_bounded_after_reply
      [where generateContent = replies_wow and s = full_history
         and aiMessage = "Some (str ''Wow neu!'')" and rt = latin1]
      history_bounded_after_reply
      [where generateContent = replies_wow and s = typed_hallo
         and aiMessage = "Some (str ''Wow neu!'')" and rt = latin1]
      g
    by (simp add: replies_wow_succeeds full_history_length)
qed

subsection \<open>A request that fails\<close>

text \<open>
  A request that throws leaves the history as the user's append made it: the push of the
  reply is never reached.
\<close>

lemma thrown_request_leaves_history:
  assumes "trim (chatInput s) \<noteq> []" and "\<not> isLoading s"
    and "generateContent (contents_of (conversationHistory s @ [user_turn s])) = Inl e"
  shows "conversationHistory (sendMessage rt generateContent s) = conversationHistory s @ [user_turn s]
         \<and> last (conversationHistory (sendMessage rt generateContent s)) = user_turn s
         \<and> role (last (conversationHistory (sendMessage rt generateContent s))) = str ''user''"
  using sendMessage_history_failure [where e = e and s = s and generateContent = generateContent and rt = rt] assms
  by (simp add: user_turn_def)

text \<open>
  C4 does not hold of the program when the failure is a response without text. The reply,
  \<^verbatim>\<open>undefined\<close>, is pushed as an assistant turn before \<open>addMessage\<close> throws on it
  inside the \<^verbatim>\<open>try\<close> block; the program then reports an error of the service
  twice, and the history ends with that assistant turn, not with the user's turn. On the
  loaded page, with \<open>Hallo\<close> submitted:
\<close>

theorem response_without_text_leaves_assistant_turn:
  "trim (chatInput typed_hallo) = str ''Hallo''
   \<and> no_text (contents_of (conversationHistory typed_hallo @ [user_turn typed_hallo])) = Inr None
   \<and> conversationHistory (sendMessage latin1 no_text typed_hallo)
       = conversationHistory typed_hallo
           @ [\<lparr>role = str ''user'', content = Some (str ''Hallo'')\<rparr>,
              \<lparr>role = str ''assistant'', content = None\<rparr>]
   \<and> chatMessages (sendMessage latin1 no_text typed_hallo)
       = Some [MessageDiv AI (str (''Wei'' @ CHR 0xDF # ''t du eigentlich, was Emergenz bedeutet?'')),
               MessageDiv Human (str ''Hallo''),
               MessageDiv System
                 (0x274C # str '' Fehler bei der Gemini API: Cannot read properties of undefined (reading ''
                    @ [0x27] @ str ''replace'' @ [0x27] @ str '')''),
               MessageDiv System
                 (0x274C # str '' Fehler: Cannot read properties of undefined (reading ''
                    @ [0x27] @ str ''replace'' @ [0x27]
                    @ str ('')<br><br>Bitte versuche es sp'' @ CHR 0xE4 # ''ter nochmal.''))]"
  by code_simp

lemma system_entries_addMessage:
  "system_entries (addMessage text ty s) =
     system_entries s + (if ty = System \<and> chatMessages s \<noteq> None then 1 else 0)"
  by (cases ty) (auto simp: system_entries_def addMessage_def split: option.split)

lemma filter_is_system_remove1: "filter is_system (remove1 ThinkingDiv ns) = filter is_system ns"
  by (induction ns) auto

lemma system_entries_thinking [simp]:
  "system_entries (showThinkingMessage s) = system_entries s"
  "system_entries (hideThinkingMessage s) = system_entries s"
  by (simp_all add: system_entries_def showThinkingMessage_def hideThinkingMessage_def
        filter_is_system_remove1 split: option.split)

lemma chatMessages_None [simp]:
  "(chatMessages (addMessage text ty s) = None) = (chatMessages s = None)"
  "(chatMessages (showThinkingMessage s) = None) = (chatMessages s = None)"
  "(chatMessages (hideThinkingMessage s) = None) = (chatMessages s = None)"
  by (simp_all add: addMessage_def showThinkingMessage_def hideThinkingMessage_def split: option.split)

lemma system_entries_update [simp]:
  "system_entries (s\<lparr>isLoading := b\<rparr>) = system_entries s"
  "system_entries (s\<lparr>chatInput := t\<rparr>) = system_entries s"
  "system_entries (s\<lparr>conversationHistory := h\<rparr>) = system_entries s"
  "system_entries (s\<lparr>chatInput := t, conversationHistory := h\<rparr>) = system_entries s"
  by (simp_all add: system_entries_def)

text \<open>
  C5, as stated, fails on the program: one failed request on the loaded page puts two
  system entries into the transcript, the one of \<open>getAIResponse\<close> and, after the rethrow,
  the one of \<open>sendMessage\<close>.
\<close>

theorem failed_call_two_system_entries:
  "chatMessages typed_hallo
     = Some [MessageDiv AI (str (''Wei'' @ CHR 0xDF # ''t du eigentlich, was Emergenz bedeutet?''))]
   \<and> chatMessages (sendMessage latin1 quota_exceeded typed_hallo)
     = Some [MessageDiv AI (str (''Wei'' @ CHR 0xDF # ''t du eigentlich, was Emergenz bedeutet?'')),
             MessageDiv Human (str ''Hallo''),
             MessageDiv System (0x274C # str '' Fehler bei der Gemini API: quota''),
             MessageDiv System
               (0x274C # str ('' Fehler: quota<br><br>Bitte versuche es sp'' @ CHR 0xE4 # ''ter nochmal.''))]
   \<and> system_entries typed_hallo = 0
   \<and> system_entries (sendMessage latin1 quota_exceeded typed_hallo) = 2"
  by code_simp

lemma getAIResponse_no_text:
  assumes "generateContent (contents_of (conversationHistory s)) = Inr None"
  shows "\<exists>e s2. getAIResponse rt generateContent s = caught e s2 \<and> chatMessages s2 = chatMessages s"
proof -
  define s2 where "s2 =
     (if length (conversationHistory s @ [\<lparr>role = str ''assistant'', content = None\<rparr>]) > 20
      then s\<lparr>conversationHistory :=
               slice (- 18) (conversationHistory s @ [\<lparr>role = str ''assistant'', content = None\<rparr>])\<rparr>
      else s\<lparr>conversationHistory :=
               conversationHistory s @ [\<lparr>role = str ''assistant'', content = None\<rparr>]\<rparr>)"
  have c: "chatMessages s2 = chatMessages s"
    by (simp add: s2_def)
  have "getAIResponse rt generateContent s = caught (undefined_read rt (str ''toLowerCase'')) s2
        \<or> getAIResponse rt generateContent s = caught (undefined_read rt (str ''replace'')) s2"
    using assms
    by (cases "chatMessages s")
       (auto simp: getAIResponse_def Let_def addMessage_value_def analyzeMessage_value_def s2_def)
  with c show ?thesis by blast
qed

lemma system_entries_cong: "chatMessages s = chatMessages s' \<Longrightarrow> system_entries s = system_entries s'"
  by (simp add: system_entries_def)

lemma sendMessage_no_text_entries:
  assumes "trim (chatInput s) \<noteq> []" and "\<not> isLoading s"
    and "generateContent (contents_of (conversationHistory s @ [user_turn s])) = Inr None"
  shows "system_entries (sendMessage rt generateContent s)
           = system_entries s + (if chatMessages s = None then 0 else 2)"
proof -
  define s4 where "s4 = showThinkingMessage (setLoading True
             ((addMessage (trim (chatInput s)) Human s)
                \<lparr>chatInput := [], conversationHistory := conversationHistory s @ [user_turn s]\<rparr>))"
  have h: "conversationHistory s4 = conversationHistory s @ [user_turn s]"
    by (simp add: s4_def)
  have n4: "system_entries s4 = system_entries s" "(chatMessages s4 = None) = (chatMessages s = None)"
    by (simp_all add: s4_def setLoading_def system_entries_addMessage)
  have run: "sendMessage rt generateContent s =
          (case getAIResponse rt generateContent s4 of
             (thrown, s5) \<Rightarrow>
               hideThinkingMessage (setLoading False
                 (case thrown of None \<Rightarrow> s5
                  | Some error \<Rightarrow>
                      addMessage (0x274C # str '' Fehler: '' @ error_message error @ [0xA, 0xA]
                               @ str (''Bitte versuche es sp'' @ CHR 0xE4 # ''ter nochmal.''))
                            System s5)))"
    using assms(1,2) unfolding sendMessage_def Let_def s4_def user_turn_def by simp
  have "generateContent (contents_of (conversationHistory s4)) = Inr None"
    by (simp add: h assms(3))
  then obtain e s2 where r: "getAIResponse rt generateContent s4 = caught e s2"
    and c: "chatMessages s2 = chatMessages s4"
    using getAIResponse_no_text [where generateContent = generateContent and s = s4 and rt = rt]
    by blast
  have n2: "system_entries s2 = system_entries s" "(chatMessages s2 = None) = (chatMessages s = None)"
    using n4 c system_entries_cong [OF c] by simp_all
  show ?thesis
    unfolding run r caught_def
    by (simp add: setLoading_def system_entries_addMessage n2)
qed

text \<open>
  C5, amended. A failed request, whether the request throws or the response has no text,
  adds exactly two system entries to the displayed transcript when the page has the
  \<^verbatim>\<open>#chat-messages\<close> element, and none when it has not.
\<close>

theorem failed_call_shows_two_errors:
  assumes "trim (chatInput s) \<noteq> []" and "\<not> isLoading s"
    and "generateContent (contents_of (conversationHistory s @ [user_turn s])) = Inl e
         \<or> generateContent (contents_of (conversationHistory s @ [user_turn s])) = Inr None"
  shows "system_entries (sendMessage rt generateContent s)
           = system_entries s + (if chatMessages s = None then 0 else 2)"
  using assms(3)
proof
  assume "generateContent (contents_of (conversationHistory s @ [user_turn s])) = Inl e"
  then show ?thesis
    using sendMessage_failure [where e = e and s = s and generateContent = generateContent and rt = rt]
      assms(1,2)
    by (simp add: setLoading_def system_entries_addMessage)
next
  assume "generateContent (contents_of (conversationHistory s @ [user_turn s])) = Inr None"
  then show ?thesis
    using sendMessage_no_text_entries [where s = s and generateContent = generateContent and rt = rt]
      assms(1,2)
    by blast
qed

theorem failed_call_shows_two_errors_witness:
  "trim (chatInput typed_hallo) \<noteq> [] \<and> \<not> isLoading typed_hallo
   \<and> quota_exceeded (contents_of (conversationHistory typed_hallo @ [user_turn typed_hallo]))
       = Inl (Error (str ''quota''))
   \<and> no_text (contents_of (conversationHistory typed_hallo @ [user_turn typed_hallo])) = Inr None
   \<and> chatMessages typed_hallo \<noteq> None
   \<and> system_entries (sendMessage latin1 quota_exceeded typed_hallo) = system_entries typed_hallo + 2
   \<and> system_entries (sendMessage latin1 no_text typed_hallo) = system_entries typed_hallo + 2"
proof -
  have g: "trim (chatInput typed_hallo) \<noteq> []" "\<not> isLoading typed_hallo"
    using typed_hallo_guard by (simp_all add: str_def)
  have c: "chatMessages typed_hallo \<noteq> None"
    using loaded_facts(3) [of 0] by (simp add: typed_hallo_def)
  have q: "quota_exceeded (contents_of (conversationHistory typed_hallo @ [user_turn typed_hallo]))
             = Inl (Error (str ''quota''))
           \<or> quota_exceeded (contents_of (conversationHistory typed_hallo @ [user_turn typed_hallo]))
             = Inr None"
    by (simp add: quota_exceeded_fails)
  have n: "no_text (contents_of (conversationHistory typed_hallo @ [user_turn typed_hallo]))
             = Inl (Error (str ''quota''))
           \<or> no_text (contents_of (conversationHistory typed_hallo @ [user_turn typed_hallo]))
             = Inr None"
    by (simp add: no_text_def)
  show ?thesis
    using failed_call_shows_two_errors
      [where generateContent = quota_exceeded and s = typed_hallo
         and e = "Error (str ''quota'')" and rt = latin1, OF g q]
      failed_call_shows_two_errors
      [where generateContent = no_text and s = typed_hallo
         and e = "Error (str ''quota'')" and rt = latin1, OF g n]
      g c
    by (simp add: quota_exceeded_fails no_text_def)
qed

end
